theory Spec2Isabelle
  imports Complex_Main "HOL-Library.Char_ord" "HOL-Library.List_Lexorder"
begin

section \<open>The web player of the signage system (web\_player.py)\<close>

text \<open>
  The module builds a playlist from two content directories, a configuration file and an
  optional selection file, and serves it in two forms: a stateless snapshot
  (\<open>get_playlist\<close>) and a synchronised snapshot (\<open>build_playlist_with_durations\<close> with the
  anchor kept by \<open>api_playlist_sync\<close>).  Everything the functions read from disk is a field
  of the record \<open>fs\<close>; the three module globals of the synchronised endpoint are the record
  \<open>sync_state\<close>.  Paths follow POSIX rules (the player runs on a Raspberry Pi): pattern
  matching is case sensitive and names are compared byte by byte.
\<close>

subsection \<open>Values read from JSON files\<close>

text \<open>
  What \<open>json.loads\<close> returns.  A float is a finite rational or one of the values
  \<open>NaN\<close>, \<open>Infinity\<close>, \<open>-Infinity\<close> that the parser accepts; an object is the list of the
  items of the resulting dict, so its keys are distinct.
\<close>

datatype pyfloat = Finite rat | NonFinite

datatype json =
    JNull
  | JBool bool
  | JInt int
  | JFloat pyfloat
  | JStr string
  | JList "json list"
  | JDict "(string \<times> json) list"

text \<open>The exceptions that can leave the functions modelled here.\<close>

datatype error = TypeError | ZeroDivisionError

text \<open>A file on disk: absent, present but failing to read or parse, or parsed.\<close>

datatype json_file = Missing | Unreadable | Content json

text \<open>Python truthiness, as used by \<open>or\<close> and \<open>if name\<close>.\<close>

fun truthy :: "json \<Rightarrow> bool" where
  "truthy JNull = False"
| "truthy (JBool b) = b"
| "truthy (JInt n) = (n \<noteq> 0)"
| "truthy (JFloat (Finite q)) = (q \<noteq> 0)"
| "truthy (JFloat NonFinite) = True"
| "truthy (JStr s) = (s \<noteq> [])"
| "truthy (JList xs) = (xs \<noteq> [])"
| "truthy (JDict kvs) = (kvs \<noteq> [])"

text \<open>\<open>a or b\<close>.\<close>

definition py_or :: "json \<Rightarrow> json \<Rightarrow> json" where
  "py_or a b = (if truthy a then a else b)"

text \<open>\<open>d.get(k)\<close> and \<open>d.get(k, default)\<close> on a dict.\<close>

definition dict_get :: "(string \<times> json) list \<Rightarrow> string \<Rightarrow> json \<Rightarrow> json" where
  "dict_get kvs k dflt = (case map_of kvs k of None \<Rightarrow> dflt | Some v \<Rightarrow> v)"

text \<open>
  The builtin \<open>int(x)\<close>; \<open>None\<close> stands for the exception it raises.  A float is truncated
  towards zero.  How a string is read as a number is the builtin's business and is the
  parameter \<open>int_of_str\<close>.
\<close>

definition truncate_rat :: "rat \<Rightarrow> int" where
  "truncate_rat q = (if 0 \<le> q then \<lfloor>q\<rfloor> else \<lceil>q\<rceil>)"

fun py_int :: "(string \<Rightarrow> int option) \<Rightarrow> json \<Rightarrow> int option" where
  "py_int int_of_str (JInt n) = Some n"
| "py_int int_of_str (JBool b) = Some (if b then 1 else 0)"
| "py_int int_of_str (JFloat (Finite q)) = Some (truncate_rat q)"
| "py_int int_of_str (JFloat NonFinite) = None"
| "py_int int_of_str (JStr s) = int_of_str s"
| "py_int int_of_str JNull = None"
| "py_int int_of_str (JList xs) = None"
| "py_int int_of_str (JDict kvs) = None"

subsection \<open>Names, patterns and paths\<close>

text \<open>\<open>str.upper\<close> on the ASCII letters of the extensions.\<close>

definition upper_char :: "char \<Rightarrow> char" where
  "upper_char c =
     (if CHR ''a'' \<le> c \<and> c \<le> CHR ''z'' then char_of (of_char c - (32::nat)) else c)"

definition upper :: "string \<Rightarrow> string" where
  "upper s = map upper_char s"

text \<open>The pattern \<open>*ext\<close>: any name that ends with \<open>ext\<close>.\<close>

definition glob_star :: "string \<Rightarrow> string \<Rightarrow> bool" where
  "glob_star ext nm = (length ext \<le> length nm \<and> drop (length nm - length ext) nm = ext)"

text \<open>The pattern \<open>slide_*.png\<close>.\<close>

definition glob_slide :: "string \<Rightarrow> bool" where
  "glob_slide nm =
     (10 \<le> length nm \<and> take 6 nm = ''slide_'' \<and> glob_star ''.png'' nm)"

text \<open>\<open>str.split('/')\<close>.\<close>

fun split_slash :: "string \<Rightarrow> string list" where
  "split_slash [] = [[]]"
| "split_slash (c # cs) =
     (if c = CHR ''/'' then [] # split_slash cs
      else (case split_slash cs of p # ps \<Rightarrow> (c # p) # ps | [] \<Rightarrow> [[c]]))"

text \<open>
  \<open>Path(s).name\<close>: the last component of the path, where empty components and \<open>.\<close>
  are dropped; the empty string when nothing is left.
\<close>

definition path_name :: "string \<Rightarrow> string" where
  "path_name s =
     (let parts = filter (\<lambda>x. x \<noteq> [] \<and> x \<noteq> ''.'') (split_slash s)
      in if parts = [] then [] else last parts)"

text \<open>\<open>name.rfind('.')\<close>, with \<open>None\<close> for \<open>-1\<close>.\<close>

fun rfind_dot :: "string \<Rightarrow> nat option" where
  "rfind_dot [] = None"
| "rfind_dot (c # cs) =
     (case rfind_dot cs of
        Some i \<Rightarrow> Some (Suc i)
      | None \<Rightarrow> if c = CHR ''.'' then Some 0 else None)"

text \<open>
  \<open>Path(s).stem\<close>: the name without its last suffix; a dot in first or last position
  starts no suffix (the rule of pathlib up to Python 3.13).
\<close>

definition path_stem :: "string \<Rightarrow> string" where
  "path_stem s =
     (let nm = path_name s
      in case rfind_dot nm of
           Some i \<Rightarrow> if 0 < i \<and> i < length nm - 1 then take i nm else nm
         | None \<Rightarrow> nm)"

subsection \<open>The content store\<close>

text \<open>
  \<open>videos_dir\<close> is the listing of \<open>VIDEOS_DIR\<close>, \<open>None\<close> when the directory does not
  exist.  \<open>slides_cache\<close> is the listing of \<open>SLIDES_CACHE_DIR\<close>: each entry has a name and,
  when it is a directory, the names inside it.  \<open>cache_parent\<close> lists the directory above
  \<open>SLIDES_CACHE_DIR\<close>, which the selection path reaches through the stem \<open>..\<close>.
\<close>

record fs =
  config_file :: json_file
  playlist_json :: json_file
  videos_dir :: "string list option"
  slides_cache :: "(string \<times> string list option) list option"
  cache_parent :: "string list"

definition VIDEO_FORMATS :: "string list" where
  "VIDEO_FORMATS = [''.mp4'', ''.avi'', ''.mov'', ''.mkv'', ''.webm'']"

definition SLIDE_DURATION :: int where
  "SLIDE_DURATION = 10"

definition get_video_files :: "fs \<Rightarrow> string list" where
  "get_video_files s =
     (case videos_dir s of
        None \<Rightarrow> []
      | Some names \<Rightarrow>
          sort (concat (map (\<lambda>ext. filter (glob_star ext) names
                                 @ filter (glob_star (upper ext)) names) VIDEO_FORMATS)))"

text \<open>
  A slide is the pair of its presentation directory and its file name; its path relative
  to \<open>SLIDES_CACHE_DIR\<close> is \<open>dir/name\<close>.
\<close>

definition dir_slides :: "string \<times> string list option \<Rightarrow> (string \<times> string) list" where
  "dir_slides e =
     (case snd e of
        None \<Rightarrow> []
      | Some children \<Rightarrow> map (\<lambda>n. (fst e, n)) (sort (filter glob_slide children)))"

definition get_slide_files :: "fs \<Rightarrow> (string \<times> string) list" where
  "get_slide_files s =
     (case slides_cache s of
        None \<Rightarrow> []
      | Some entries \<Rightarrow> concat (map dir_slides (sort_key fst entries)))"

subsection \<open>Playlist entries\<close>

datatype media = Video | Image

record entry =
  entry_type :: media
  entry_url :: string
  entry_name :: string
  entry_duration :: "int option"

definition video_entry :: "string \<Rightarrow> int option \<Rightarrow> entry" where
  "video_entry nm d =
     \<lparr>entry_type = Video, entry_url = ''/content/videos/'' @ nm, entry_name = nm,
      entry_duration = d\<rparr>"

text \<open>\<open>rel\<close> is the slide's path relative to \<open>SLIDES_CACHE_DIR\<close>, in POSIX form.\<close>

definition image_entry :: "string \<Rightarrow> string \<Rightarrow> entry" where
  "image_entry rel nm =
     \<lparr>entry_type = Image, entry_url = ''/content/slides/'' @ rel, entry_name = nm,
      entry_duration = Some SLIDE_DURATION\<rparr>"

definition slide_entry :: "string \<times> string \<Rightarrow> entry" where
  "slide_entry sl = image_entry (fst sl @ ''/'' @ snd sl) (snd sl)"

subsection \<open>Reading the mode and the selection\<close>

text \<open>
  The \<open>try\<close> block that opens both playlist builders.  The value of the key \<open>mode\<close> is
  taken as it is; \<open>cfg.get\<close> on anything but a dict raises and gives \<open>both\<close>.
\<close>

definition read_mode :: "json_file \<Rightarrow> json" where
  "read_mode f =
     (case f of
        Content (JDict cfg) \<Rightarrow> dict_get cfg ''mode'' (JStr ''both'')
      | _ \<Rightarrow> JStr ''both'')"

text \<open>\<open>mode in (a, b)\<close>: only a string equals a string.\<close>

definition mode_in :: "json \<Rightarrow> string list \<Rightarrow> bool" where
  "mode_in m opts = (case m of JStr s \<Rightarrow> s \<in> set opts | _ \<Rightarrow> False)"

text \<open>One element of the selection file, normalised to name and repeat count.\<close>

fun normalize_entry :: "(string \<Rightarrow> int option) \<Rightarrow> json \<Rightarrow> (json \<times> int) list" where
  "normalize_entry int_of_str (JStr s) = [(JStr s, 1)]"
| "normalize_entry int_of_str (JDict e) =
     (let nm = py_or (dict_get e ''name'' JNull) (dict_get e ''filename'' JNull);
          repeats = (case py_int int_of_str (dict_get e ''repeats'' (JInt 1)) of
                       None \<Rightarrow> 1
                     | Some r \<Rightarrow> r)
      in if truthy nm then [(nm, max 1 repeats)] else [])"
| "normalize_entry int_of_str _ = []"

definition read_selected :: "(string \<Rightarrow> int option) \<Rightarrow> json_file \<Rightarrow> (json \<times> int) list" where
  "read_selected int_of_str f =
     (case f of
        Content (JList data) \<Rightarrow> concat (map (normalize_entry int_of_str) data)
      | _ \<Rightarrow> [])"

subsection \<open>The stateless playlist: \<open>get_playlist\<close>\<close>

text \<open>
  The directory \<open>SLIDES_CACHE_DIR / stem\<close>, when it exists and is a directory: its
  listing.  Joining with the empty stem or with \<open>.\<close> gives \<open>SLIDES_CACHE_DIR\<close> itself, and
  \<open>..\<close> the directory above it.
\<close>

definition pres_dir :: "fs \<Rightarrow> string \<Rightarrow> string list option" where
  "pres_dir s stem =
     (case slides_cache s of
        None \<Rightarrow> None
      | Some entries \<Rightarrow>
          if stem = [] \<or> stem = ''.'' then Some (map fst entries)
          else if stem = ''..'' then Some (cache_parent s)
          else (case map_of entries stem of
                  Some (Some children) \<Rightarrow> Some children
                | _ \<Rightarrow> None))"

text \<open>The path of a slide of \<open>SLIDES_CACHE_DIR / stem\<close> relative to \<open>SLIDES_CACHE_DIR\<close>.\<close>

definition rel_path :: "string \<Rightarrow> string \<Rightarrow> string" where
  "rel_path stem nm = (if stem = [] \<or> stem = ''.'' then nm else stem @ ''/'' @ nm)"

text \<open>The images one selected presentation contributes, once.\<close>

definition pres_slides :: "string \<Rightarrow> string list \<Rightarrow> entry list" where
  "pres_slides stem children =
     map (\<lambda>nm. image_entry (rel_path stem nm) nm) (sort (filter glob_slide children))"

text \<open>
  The loop over the selected entries, with the playlist built so far.  A name that is
  not a string cannot be looked up among the videos or turned into a path: the call
  raises \<open>TypeError\<close>.
\<close>

fun select_entries ::
  "json \<Rightarrow> string list \<Rightarrow> fs \<Rightarrow> (json \<times> int) list \<Rightarrow> entry list \<Rightarrow> error + entry list"
where
  "select_entries mode video_files s [] playlist = Inr playlist"
| "select_entries mode video_files s ((nm, repeats) # rest) playlist =
     (if \<not> truthy nm then select_entries mode video_files s rest playlist
      else case nm of
        JStr n \<Rightarrow>
          if n \<in> set video_files \<and> mode_in mode [''both'', ''video'']
          then select_entries mode video_files s rest
                 (playlist @ replicate (nat repeats) (video_entry n None))
          else (case pres_dir s (path_stem n) of
                  Some children \<Rightarrow>
                    if mode_in mode [''both'', ''presentation'']
                    then select_entries mode video_files s rest
                           (playlist @ concat (replicate (nat repeats)
                                                 (pres_slides (path_stem n) children)))
                    else select_entries mode video_files s rest playlist
                | None \<Rightarrow> select_entries mode video_files s rest playlist)
      | _ \<Rightarrow> Inl TypeError)"

definition get_playlist :: "(string \<Rightarrow> int option) \<Rightarrow> fs \<Rightarrow> error + entry list" where
  "get_playlist int_of_str s =
     (let mode = read_mode (config_file s);
          selected = read_selected int_of_str (playlist_json s);
          video_files = get_video_files s
      in if selected \<noteq> [] then select_entries mode video_files s selected []
         else Inr (map (\<lambda>v. video_entry v None)
                     (filter (\<lambda>v. mode_in mode [''both'', ''video'']) (get_video_files s))
                   @ map slide_entry
                       (filter (\<lambda>sl. mode_in mode [''both'', ''presentation''])
                          (get_slide_files s))))"

subsection \<open>The synchronised playlist\<close>

definition get_video_duration :: "string \<Rightarrow> int" where
  "get_video_duration video_path = 30"

definition build_playlist_with_durations :: "fs \<Rightarrow> entry list" where
  "build_playlist_with_durations s =
     (let mode = read_mode (config_file s)
      in map (\<lambda>v. video_entry v (Some (get_video_duration v)))
           (filter (\<lambda>v. mode_in mode [''both'', ''video'']) (get_video_files s))
         @ map slide_entry
             (filter (\<lambda>sl. mode_in mode [''both'', ''presentation'']) (get_slide_files s)))"

text \<open>
  The fingerprint is \<open>md5\<close> of \<open>json.dumps\<close> of the playlist; both are library functions
  and parameters here.
\<close>

definition get_playlist_hash_from ::
  "(string \<Rightarrow> string) \<Rightarrow> (entry list \<Rightarrow> string) \<Rightarrow> entry list \<Rightarrow> string" where
  "get_playlist_hash_from md5 dumps playlist = md5 (dumps playlist)"

text \<open>\<open>item.get('duration', 0)\<close>.\<close>

definition item_duration :: "entry \<Rightarrow> int" where
  "item_duration item = (case entry_duration item of None \<Rightarrow> 0 | Some d \<Rightarrow> d)"

definition calculate_total_duration :: "entry list \<Rightarrow> int" where
  "calculate_total_duration playlist = sum_list (map item_duration playlist)"

text \<open>
  Times are real numbers.  \<open>x % t\<close> is the remainder of floored division and raises on a
  zero divisor.
\<close>

definition py_mod :: "real \<Rightarrow> int \<Rightarrow> error + real" where
  "py_mod x t =
     (if t = 0 then Inl ZeroDivisionError
      else Inr (x - of_int t * of_int \<lfloor>x / of_int t\<rfloor>))"

text \<open>
  The loop of \<open>get_current_item_index\<close>, from index \<open>idx\<close> with \<open>cumulative\<close> seconds
  before it; \<open>None\<close> when the loop ends without returning.
\<close>

fun find_item :: "entry list \<Rightarrow> real \<Rightarrow> nat \<Rightarrow> int \<Rightarrow> (nat \<times> real) option" where
  "find_item [] position_in_loop idx cumulative = None"
| "find_item (item # rest) position_in_loop idx cumulative =
     (if of_int (cumulative + item_duration item) > position_in_loop
      then Some (idx, position_in_loop - of_int cumulative)
      else find_item rest position_in_loop (Suc idx) (cumulative + item_duration item))"

definition get_current_item_index :: "entry list \<Rightarrow> real \<Rightarrow> error + (nat \<times> real)" where
  "get_current_item_index playlist elapsed_time =
     (let total_duration = calculate_total_duration playlist
      in if total_duration = 0 then Inr (0, 0)
         else case py_mod elapsed_time total_duration of
                Inl e \<Rightarrow> Inl e
              | Inr position_in_loop \<Rightarrow>
                  (case find_item playlist position_in_loop 0 0 of
                     Some r \<Rightarrow> Inr r
                   | None \<Rightarrow> Inr (0, 0)))"

subsection \<open>The synchronised endpoint and its anchor\<close>

record sync_state =
  playlist_cache :: "entry list option"
  playlist_hash_cache :: "string option"
  playlist_start_time :: "real option"

definition initial_state :: sync_state where
  "initial_state =
     \<lparr>playlist_cache = None, playlist_hash_cache = None, playlist_start_time = None\<rparr>"

record response =
  resp_playlist :: "entry list"
  resp_hash :: string
  serverTime :: real
  playlistStartTime :: real
  currentIndex :: nat
  itemElapsed :: real

text \<open>
  One request.  \<open>now k\<close> is what the \<open>k\<close>-th call of \<open>time.time()\<close> in the text of the
  function returns when this request reaches it: \<open>now 0\<close> at the reset, \<open>now 1\<close> for the
  elapsed time, \<open>now 2\<close> for \<open>serverTime\<close>, \<open>now 3\<close> for the start time of the answer when
  the stored one is absent or zero.  The globals are written before the index is
  computed, so the new state is returned whatever the outcome.
\<close>

definition api_playlist_sync ::
  "(string \<Rightarrow> string) \<Rightarrow> (entry list \<Rightarrow> string) \<Rightarrow> (nat \<Rightarrow> real) \<Rightarrow> fs \<Rightarrow> sync_state
     \<Rightarrow> (error + response) \<times> sync_state" where
  "api_playlist_sync md5 dumps now s st =
     (let playlist = build_playlist_with_durations s;
          playlist_hash = get_playlist_hash_from md5 dumps playlist;
          st' = (if Some playlist_hash \<noteq> playlist_hash_cache st
                 then \<lparr>playlist_cache = Some playlist,
                       playlist_hash_cache = Some playlist_hash,
                       playlist_start_time = Some (now 0)\<rparr>
                 else st);
          current = (case playlist_start_time st' of
                       Some t0 \<Rightarrow>
                         if t0 \<noteq> 0 \<and> playlist \<noteq> []
                         then get_current_item_index playlist (now 1 - t0)
                         else Inr (0, 0)
                     | None \<Rightarrow> Inr (0, 0))
      in (case current of
            Inl e \<Rightarrow> Inl e
          | Inr (current_index, item_elapsed) \<Rightarrow>
              Inr \<lparr>resp_playlist = playlist,
                   resp_hash = playlist_hash,
                   serverTime = now 2,
                   playlistStartTime =
                     (case playlist_start_time st' of
                        Some t0 \<Rightarrow> if t0 \<noteq> 0 then t0 else now 3
                      | None \<Rightarrow> now 3),
                   currentIndex = current_index,
                   itemElapsed = item_elapsed\<rparr>,
          st'))"

text \<open>A sequence of requests, each with its content store and its clock readings.\<close>

fun sync_calls ::
  "(string \<Rightarrow> string) \<Rightarrow> (entry list \<Rightarrow> string) \<Rightarrow> ((nat \<Rightarrow> real) \<times> fs) list \<Rightarrow> sync_state
     \<Rightarrow> sync_state" where
  "sync_calls md5 dumps [] st = st"
| "sync_calls md5 dumps ((now, s) # calls) st =
     sync_calls md5 dumps calls (snd (api_playlist_sync md5 dumps now s st))"

subsection \<open>Notions used in the statements\<close>

text \<open>The seconds of playlist that lie before the entry at index \<open>i\<close>.\<close>

definition cumulative_before :: "entry list \<Rightarrow> nat \<Rightarrow> int" where
  "cumulative_before playlist i = sum_list (map item_duration (take i playlist))"

text \<open>What a playlist shows, durations aside: type, url and name of each entry, in order.\<close>

definition logical_content :: "entry list \<Rightarrow> (media \<times> string \<times> string) list" where
  "logical_content playlist = map (\<lambda>e. (entry_type e, entry_url e, entry_name e)) playlist"

text \<open>
  Content stores for the examples: nothing on disk at all, and a store with two videos
  and one rendered presentation but neither a configuration nor a selection file.
\<close>

definition empty_store :: fs where
  "empty_store =
     \<lparr>config_file = Missing, playlist_json = Missing, videos_dir = None,
      slides_cache = None, cache_parent = []\<rparr>"

definition example_store :: fs where
  "example_store =
     \<lparr>config_file = Missing, playlist_json = Missing,
      videos_dir = Some [''b.mp4'', ''a.mp4'', ''notes.txt''],
      slides_cache = Some [(''deck'', Some [''slide_2.png'', ''slide_1.png'']),
                           (''index.json'', None)],
      cache_parent = [''slides'']\<rparr>"

text \<open>Stand-ins for the two library functions of the fingerprint, for the examples.\<close>

definition example_dumps :: "entry list \<Rightarrow> string" where
  "example_dumps playlist = concat (map (\<lambda>e. entry_url e @ '';'') playlist)"

definition example_md5 :: "string \<Rightarrow> string" where
  "example_md5 text = text"

text \<open>
  A stand-in for the builtin \<open>int\<close> on strings, for the examples: it reads a string of
  ASCII digits and rejects everything else.
\<close>

definition int_of_digits :: "string \<Rightarrow> int option" where
  "int_of_digits text =
     (if text \<noteq> [] \<and> list_all (\<lambda>c. CHR ''0'' \<le> c \<and> c \<le> CHR ''9'') text
      then Some (foldl (\<lambda>n c. 10 * n + (int (of_char c) - 48)) 0 text)
      else None)"

text \<open>
  The example store with a selection file that names the video \<open>a.mp4\<close> twice over and the
  presentation \<open>deck.pptx\<close> once, and with a configuration that sets the mode.
\<close>

definition selection_store :: "string \<Rightarrow> fs" where
  "selection_store mode =
     example_store
       \<lparr>config_file := Content (JDict [(''mode'', JStr mode)]),
        playlist_json :=
          Content (JList [JDict [(''name'', JStr ''a.mp4''), (''repeats'', JInt 2)],
                          JStr ''deck.pptx''])\<rparr>"

section \<open>The synchronisation clock\<close>

subsection \<open>The walk over the playlist\<close>

lemma find_item_first:
  "i < length xs \<Longrightarrow>
   of_int (c + cumulative_before xs i + item_duration (xs ! i)) > pos \<Longrightarrow>
   (\<forall>j<i. \<not> of_int (c + cumulative_before xs j + item_duration (xs ! j)) > pos) \<Longrightarrow>
   find_item xs pos idx c = Some (idx + i, pos - of_int (c + cumulative_before xs i))"
proof (induction xs arbitrary: i idx c)
  case Nil
  then show ?case by simp
next
  case (Cons x xs)
  show ?case
  proof (cases i)
    case 0
    with Cons.prems show ?thesis by (simp add: cumulative_before_def)
  next
    case (Suc k)
    from Cons.prems(3) Suc have nothit: "\<not> of_int (c + item_duration x) > pos"
      by (force simp: cumulative_before_def)
    have k: "k < length xs" using Cons.prems(1) Suc by simp
    have hit: "of_int ((c + item_duration x) + cumulative_before xs k + item_duration (xs ! k)) > pos"
      using Cons.prems(2) Suc by (simp add: cumulative_before_def add.assoc)
    have first: "\<forall>j<k. \<not> of_int ((c + item_duration x) + cumulative_before xs j
                                 + item_duration (xs ! j)) > pos"
    proof (intro allI impI)
      fix j assume "j < k"
      then have "Suc j < i" using Suc by simp
      with Cons.prems(3)
      have "\<not> of_int (c + cumulative_before (x # xs) (Suc j)
                       + item_duration ((x # xs) ! Suc j)) > pos"
        by blast
      then show "\<not> of_int ((c + item_duration x) + cumulative_before xs j
                            + item_duration (xs ! j)) > pos"
        by (simp add: cumulative_before_def add.assoc)
    qed
    from Cons.IH[OF k hit first, of "Suc idx"] nothit Suc show ?thesis
      by (simp add: cumulative_before_def add.assoc)
  qed
qed

lemma find_item_bounds:
  "of_int c \<le> pos \<Longrightarrow> pos < of_int (c + sum_list (map item_duration xs)) \<Longrightarrow>
   \<exists>i ie. find_item xs pos idx c = Some (idx + i, ie) \<and> i < length xs \<and>
          0 \<le> ie \<and> ie < of_int (item_duration (xs ! i))"
proof (induction xs arbitrary: idx c)
  case Nil
  then show ?case by simp
next
  case (Cons x xs)
  show ?case
  proof (cases "of_int (c + item_duration x) > pos")
    case True
    with Cons.prems have "find_item (x # xs) pos idx c = Some (idx + 0, pos - of_int c) \<and>
       0 < length (x # xs) \<and> 0 \<le> pos - of_int c \<and>
       pos - of_int c < of_int (item_duration ((x # xs) ! 0))"
      by simp
    then show ?thesis by blast
  next
    case False
    then have le: "of_int (c + item_duration x) \<le> pos" by simp
    have lt: "pos < of_int ((c + item_duration x) + sum_list (map item_duration xs))"
      using Cons.prems(2) by (simp add: add.assoc)
    from Cons.IH[OF le lt, of "Suc idx"] obtain i ie where
      "find_item xs pos (Suc idx) (c + item_duration x) = Some (Suc idx + i, ie)"
      "i < length xs" "0 \<le> ie" "ie < of_int (item_duration (xs ! i))"
      by blast
    with False have "find_item (x # xs) pos idx c = Some (idx + Suc i, ie) \<and>
       Suc i < length (x # xs) \<and> 0 \<le> ie \<and> ie < of_int (item_duration ((x # xs) ! Suc i))"
      by simp
    then show ?thesis by blast
  qed
qed

subsection \<open>The position in the loop\<close>

lemma py_mod_range:
  assumes "0 < t"
  shows "\<exists>pos. py_mod x t = Inr pos \<and> 0 \<le> pos \<and> pos < of_int t"
proof -
  have t: "(0::real) < of_int t" using assms by simp
  have lo: "of_int \<lfloor>x / of_int t\<rfloor> * real_of_int t \<le> x"
    using floor_divide_lower[OF t] .
  have hi: "x < (of_int \<lfloor>x / of_int t\<rfloor> + 1) * real_of_int t"
    using floor_divide_upper[OF t] .
  define pos where "pos = x - of_int t * of_int \<lfloor>x / of_int t\<rfloor>"
  have "py_mod x t = Inr pos" using assms by (simp add: py_mod_def pos_def)
  moreover have "0 \<le> pos" using lo by (simp add: pos_def algebra_simps)
  moreover have "pos < of_int t" using hi by (simp add: pos_def algebra_simps)
  ultimately show ?thesis by blast
qed

lemma total_positive:
  "playlist \<noteq> [] \<Longrightarrow> \<forall>e\<in>set playlist. 0 < item_duration e \<Longrightarrow>
   0 < calculate_total_duration playlist"
proof (induction playlist)
  case Nil
  then show ?case by simp
next
  case (Cons x xs)
  have "0 \<le> sum_list (map item_duration xs)"
    using Cons.prems(2) by (intro sum_list_nonneg) auto
  with Cons.prems(2) show ?case by (simp add: calculate_total_duration_def)
qed

lemma total_zero_index:
  "calculate_total_duration playlist = 0 \<Longrightarrow>
   get_current_item_index playlist elapsed = Inr (0, 0)"
  by (simp add: get_current_item_index_def)

lemma build_durations:
  "e \<in> set (build_playlist_with_durations s) \<Longrightarrow>
   item_duration e = 30 \<or> item_duration e = 10"
  by (auto simp: build_playlist_with_durations_def Let_def item_duration_def video_entry_def
       slide_entry_def image_entry_def SLIDE_DURATION_def get_video_duration_def)

text \<open>
  Claim C4.  For a playlist of two entries with durations 10 and 20 the total is 30, and
  the current item is index 0 at 5 seconds into it after 5 seconds, index 1 at 5 seconds
  into it after 15 seconds, and again index 0 at 5 seconds after 35 seconds.  In general,
  with a total other than zero, the position is the elapsed time modulo the total, the
  index returned is the first one whose cumulative duration before it plus its own
  duration exceeds the position, and the item's elapsed time is the position minus that
  cumulative duration.
\<close>

theorem looping_index_computation:
  "(\<forall>a b :: entry. entry_duration a = Some 10 \<and> entry_duration b = Some 20 \<longrightarrow>
      calculate_total_duration [a, b] = 30 \<and>
      get_current_item_index [a, b] 5 = Inr (0, 5) \<and>
      get_current_item_index [a, b] 15 = Inr (1, 5) \<and>
      get_current_item_index [a, b] 35 = Inr (0, 5)) \<and>
   (\<forall>playlist elapsed pos i.
      calculate_total_duration playlist \<noteq> 0 \<and>
      py_mod elapsed (calculate_total_duration playlist) = Inr pos \<and>
      i < length playlist \<and>
      of_int (cumulative_before playlist i + item_duration (playlist ! i)) > pos \<and>
      (\<forall>j<i. \<not> of_int (cumulative_before playlist j + item_duration (playlist ! j)) > pos)
      \<longrightarrow> get_current_item_index playlist elapsed
            = Inr (i, pos - of_int (cumulative_before playlist i)))"
proof (intro conjI allI impI)
  fix a b :: entry assume d: "entry_duration a = Some 10 \<and> entry_duration b = Some 20"
  then show t: "calculate_total_duration [a, b] = 30"
    by (simp add: calculate_total_duration_def item_duration_def)
  from d show "get_current_item_index [a, b] 5 = Inr (0, 5)"
    by (simp add: get_current_item_index_def t py_mod_def item_duration_def)
  from d show "get_current_item_index [a, b] 15 = Inr (1, 5)"
    by (simp add: get_current_item_index_def t py_mod_def item_duration_def)
  from d show "get_current_item_index [a, b] 35 = Inr (0, 5)"
    by (simp add: get_current_item_index_def t py_mod_def item_duration_def)
next
  fix playlist elapsed pos i
  assume h: "calculate_total_duration playlist \<noteq> 0 \<and>
      py_mod elapsed (calculate_total_duration playlist) = Inr pos \<and>
      i < length playlist \<and>
      of_int (cumulative_before playlist i + item_duration (playlist ! i)) > pos \<and>
      (\<forall>j<i. \<not> of_int (cumulative_before playlist j + item_duration (playlist ! j)) > pos)"
  then have "find_item playlist pos 0 0
               = Some (0 + i, pos - of_int (0 + cumulative_before playlist i))"
    by (intro find_item_first) simp_all
  with h show "get_current_item_index playlist elapsed
                 = Inr (i, pos - of_int (cumulative_before playlist i))"
    by (simp add: get_current_item_index_def)
qed

theorem looping_index_computation_witness:
  "get_current_item_index
     [video_entry ''a.mp4'' (Some 10), video_entry ''b.mp4'' (Some 20)] 35 = Inr (0, 5) \<and>
   get_current_item_index
     [video_entry ''a.mp4'' (Some 30), image_entry ''deck/slide_1.png'' ''slide_1.png'',
      image_entry ''deck/slide_2.png'' ''slide_2.png''] 95 = Inr (2, 5)"
proof
  show "get_current_item_index
     [video_entry ''a.mp4'' (Some 10), video_entry ''b.mp4'' (Some 20)] 35 = Inr (0, 5)"
    using looping_index_computation
    by (simp add: video_entry_def)
next
  let ?pl = "[video_entry ''a.mp4'' (Some 30), image_entry ''deck/slide_1.png'' ''slide_1.png'',
      image_entry ''deck/slide_2.png'' ''slide_2.png'']"
  have tot: "calculate_total_duration ?pl = 50"
    by (simp add: calculate_total_duration_def item_duration_def video_entry_def
          image_entry_def SLIDE_DURATION_def)
  have pos: "py_mod 95 50 = Inr 45" by (simp add: py_mod_def)
  have first: "\<forall>j<2. \<not> of_int (cumulative_before ?pl j + item_duration (?pl ! j)) > (45::real)"
  proof (intro allI impI)
    fix j :: nat assume "j < 2"
    then have "j = 0 \<or> j = 1" by auto
    then show "\<not> of_int (cumulative_before ?pl j + item_duration (?pl ! j)) > (45::real)"
      by (auto simp: cumulative_before_def item_duration_def video_entry_def
            image_entry_def SLIDE_DURATION_def)
  qed
  have hit: "of_int (cumulative_before ?pl 2 + item_duration (?pl ! 2)) > (45::real)"
    by (simp add: cumulative_before_def item_duration_def video_entry_def
          image_entry_def SLIDE_DURATION_def numeral_2_eq_2)
  have "get_current_item_index ?pl 95 = Inr (2, 45 - of_int (cumulative_before ?pl 2))"
    using looping_index_computation tot pos first hit
    by (simp del: of_int_add)
  then show "get_current_item_index ?pl 95 = Inr (2, 5)"
    by (simp add: cumulative_before_def item_duration_def video_entry_def
          image_entry_def SLIDE_DURATION_def numeral_2_eq_2)
qed

text \<open>
  Claim C5.  When the total duration of the playlist is zero, as it is for the empty
  playlist, \<open>get_current_item_index\<close> returns index 0 and elapsed 0 for every elapsed
  time, and raises nothing; and a request to the synchronised endpoint on a content store
  whose playlist has total duration zero answers with \<open>currentIndex = 0\<close> and
  \<open>itemElapsed = 0\<close>, whatever the clock and the stored anchor are.
\<close>

theorem empty_playlist_safety:
  "(\<forall>playlist elapsed. calculate_total_duration playlist = 0 \<longrightarrow>
       get_current_item_index playlist elapsed = Inr (0, 0)) \<and>
   calculate_total_duration [] = 0 \<and>
   (\<forall>md5 dumps now s st.
       calculate_total_duration (build_playlist_with_durations s) = 0 \<longrightarrow>
       (\<exists>r. fst (api_playlist_sync md5 dumps now s st) = Inr r \<and>
            currentIndex r = 0 \<and> itemElapsed r = 0))"
  by (auto simp: total_zero_index api_playlist_sync_def Let_def calculate_total_duration_def
        split: option.splits)

lemma build_empty_store: "build_playlist_with_durations empty_store = []"
  by (simp add: build_playlist_with_durations_def empty_store_def get_video_files_def
        get_slide_files_def)

theorem empty_playlist_safety_witness:
  "get_current_item_index [] 7 = Inr (0, 0) \<and>
   (\<exists>r. fst (api_playlist_sync example_md5 example_dumps (\<lambda>k. 1000 + real k) empty_store
              initial_state) = Inr r \<and>
        currentIndex r = 0 \<and> itemElapsed r = 0)"
proof -
  have z: "calculate_total_duration (build_playlist_with_durations empty_store) = 0"
    by (simp add: build_empty_store calculate_total_duration_def)
  have e: "calculate_total_duration [] = 0"
    by (simp add: calculate_total_duration_def)
  from empty_playlist_safety z e show ?thesis by blast
qed

text \<open>
  Claim C10.  Every entry that \<open>build_playlist_with_durations\<close> produces has a positive
  duration.  For a playlist that is not empty and whose durations are all positive, and an
  elapsed time that is not negative, the walk of \<open>get_current_item_index\<close> returns from
  inside the loop: the index is below the length of the playlist and the item's elapsed
  time is at least zero and below the duration of the entry at that index.
\<close>

theorem current_item_in_range:
  "(\<forall>s. \<forall>e\<in>set (build_playlist_with_durations s). 0 < item_duration e) \<and>
   (\<forall>playlist elapsed.
      playlist \<noteq> [] \<and> (\<forall>e\<in>set playlist. 0 < item_duration e) \<and> 0 \<le> elapsed \<longrightarrow>
      (\<exists>pos idx item_elapsed.
         py_mod elapsed (calculate_total_duration playlist) = Inr pos \<and>
         find_item playlist pos 0 0 = Some (idx, item_elapsed) \<and>
         get_current_item_index playlist elapsed = Inr (idx, item_elapsed) \<and>
         idx < length playlist \<and> 0 \<le> item_elapsed \<and>
         item_elapsed < of_int (item_duration (playlist ! idx))))"
proof (intro conjI allI impI ballI)
  fix s e assume "e \<in> set (build_playlist_with_durations s)"
  from build_durations[OF this] show "0 < item_duration e" by auto
next
  fix playlist :: "entry list" and elapsed :: real
  assume h: "playlist \<noteq> [] \<and> (\<forall>e\<in>set playlist. 0 < item_duration e) \<and> 0 \<le> elapsed"
  then have tot: "0 < calculate_total_duration playlist" by (simp add: total_positive)
  from py_mod_range[OF tot, of elapsed] obtain pos where
    pos: "py_mod elapsed (calculate_total_duration playlist) = Inr pos" "0 \<le> pos"
         "pos < of_int (calculate_total_duration playlist)" by blast
  have "\<exists>i ie. find_item playlist pos 0 0 = Some (0 + i, ie) \<and> i < length playlist \<and>
          0 \<le> ie \<and> ie < of_int (item_duration (playlist ! i))"
    using pos by (intro find_item_bounds) (simp_all add: calculate_total_duration_def)
  then obtain i ie where f: "find_item playlist pos 0 0 = Some (i, ie)" "i < length playlist"
    "0 \<le> ie" "ie < of_int (item_duration (playlist ! i))" by auto
  have "get_current_item_index playlist elapsed = Inr (i, ie)"
    using tot pos(1) f(1) by (simp add: get_current_item_index_def)
  with pos(1) f show "\<exists>pos idx item_elapsed.
         py_mod elapsed (calculate_total_duration playlist) = Inr pos \<and>
         find_item playlist pos 0 0 = Some (idx, item_elapsed) \<and>
         get_current_item_index playlist elapsed = Inr (idx, item_elapsed) \<and>
         idx < length playlist \<and> 0 \<le> item_elapsed \<and>
         item_elapsed < of_int (item_duration (playlist ! idx))" by blast
qed

theorem current_item_in_range_witness:
  "\<exists>idx item_elapsed.
     get_current_item_index
       [video_entry ''a.mp4'' (Some 30), image_entry ''deck/slide_1.png'' ''slide_1.png''] 75
       = Inr (idx, item_elapsed) \<and>
     idx < 2 \<and> 0 \<le> item_elapsed \<and>
     item_elapsed < of_int (item_duration
       ([video_entry ''a.mp4'' (Some 30), image_entry ''deck/slide_1.png'' ''slide_1.png''] ! idx))"
proof -
  let ?pl = "[video_entry ''a.mp4'' (Some 30), image_entry ''deck/slide_1.png'' ''slide_1.png'']"
  have pos: "\<forall>e\<in>set ?pl. 0 < item_duration e"
    by (simp add: item_duration_def video_entry_def image_entry_def SLIDE_DURATION_def)
  have "?pl \<noteq> [] \<and> (\<forall>e\<in>set ?pl. 0 < item_duration e) \<and> (0::real) \<le> 75"
    using pos by simp
  with current_item_in_range obtain p idx item_elapsed where
    "get_current_item_index ?pl 75 = Inr (idx, item_elapsed)" "idx < length ?pl"
    "0 \<le> item_elapsed" "item_elapsed < of_int (item_duration (?pl ! idx))"
    by blast
  then show ?thesis by auto
qed

subsection \<open>The anchor\<close>

lemma sync_step:
  "snd (api_playlist_sync md5 dumps now s st) =
     (if Some (get_playlist_hash_from md5 dumps (build_playlist_with_durations s))
           = playlist_hash_cache st
      then st
      else \<lparr>playlist_cache = Some (build_playlist_with_durations s),
            playlist_hash_cache =
              Some (get_playlist_hash_from md5 dumps (build_playlist_with_durations s)),
            playlist_start_time = Some (now 0)\<rparr>)"
  by (simp add: api_playlist_sync_def Let_def)

lemma sync_calls_unchanged:
  "\<forall>c\<in>set calls.
      Some (get_playlist_hash_from md5 dumps (build_playlist_with_durations (snd c)))
        = playlist_hash_cache st \<Longrightarrow>
   sync_calls md5 dumps calls st = st"
proof (induction calls)
  case Nil
  then show ?case by simp
next
  case (Cons c calls)
  obtain now s where c: "c = (now, s)" by (cases c)
  with Cons show ?case by (simp add: sync_step)
qed

text \<open>
  Claim C9.  A request leaves the three globals as they are when the fingerprint of the
  playlist it built equals the stored one, and otherwise replaces them by the new
  playlist, its fingerprint and the time read at the reset; no other part of the request
  writes them.  Hence any sequence of requests whose fingerprints all equal the stored one
  leaves the anchor, and with it the start time, unchanged; and since nothing is stored
  before the first request, the first request always sets the anchor.
\<close>

theorem anchor_reset_on_change:
  "(\<forall>md5 dumps now s st.
      snd (api_playlist_sync md5 dumps now s st) =
        (if Some (get_playlist_hash_from md5 dumps (build_playlist_with_durations s))
              = playlist_hash_cache st
         then st
         else \<lparr>playlist_cache = Some (build_playlist_with_durations s),
               playlist_hash_cache =
                 Some (get_playlist_hash_from md5 dumps (build_playlist_with_durations s)),
               playlist_start_time = Some (now 0)\<rparr>)) \<and>
   (\<forall>md5 dumps calls st.
      (\<forall>c\<in>set calls.
          Some (get_playlist_hash_from md5 dumps (build_playlist_with_durations (snd c)))
            = playlist_hash_cache st) \<longrightarrow>
      sync_calls md5 dumps calls st = st) \<and>
   playlist_hash_cache initial_state = None"
  using sync_step sync_calls_unchanged by (simp add: initial_state_def)

lemma build_example_store:
  "build_playlist_with_durations example_store =
     [video_entry ''a.mp4'' (Some 30), video_entry ''b.mp4'' (Some 30),
      image_entry ''deck/slide_1.png'' ''slide_1.png'',
      image_entry ''deck/slide_2.png'' ''slide_2.png'']"
  by code_simp

lemma build_example_store_changed:
  "build_playlist_with_durations (example_store\<lparr>videos_dir := Some [''c.mp4'']\<rparr>) =
     [video_entry ''c.mp4'' (Some 30),
      image_entry ''deck/slide_1.png'' ''slide_1.png'',
      image_entry ''deck/slide_2.png'' ''slide_2.png'']"
  by code_simp

theorem anchor_reset_on_change_witness:
  "playlist_start_time
     (sync_calls example_md5 example_dumps
        [(\<lambda>k. 100, example_store), (\<lambda>k. 107, example_store)] initial_state) = Some 100 \<and>
   playlist_start_time
     (sync_calls example_md5 example_dumps
        [(\<lambda>k. 100, example_store), (\<lambda>k. 107, example_store),
         (\<lambda>k. 120, example_store\<lparr>videos_dir := Some [''c.mp4'']\<rparr>)] initial_state) = Some 120"
proof -
  note step = anchor_reset_on_change[THEN conjunct1, rule_format]
  show ?thesis
    by (simp add: step build_example_store build_example_store_changed initial_state_def
          get_playlist_hash_from_def example_md5_def example_dumps_def video_entry_def
          image_entry_def)
qed

section \<open>The ordering resolver\<close>

subsection \<open>The enumerated content\<close>

lemma set_get_video_files:
  "videos_dir s = Some names \<Longrightarrow>
   set (get_video_files s) =
     {n \<in> set names. \<exists>ext\<in>set VIDEO_FORMATS. glob_star ext n \<or> glob_star (upper ext) n}"
  by (auto simp: get_video_files_def)

lemma sorted_get_video_files: "sorted (get_video_files s)"
  by (simp add: get_video_files_def split: option.splits)

lemma missing_videos_dir: "videos_dir s = None \<Longrightarrow> get_video_files s = []"
  by (simp add: get_video_files_def)

lemma mode_in_simps:
  "mode_in (JStr m) opts = (m \<in> set opts)"
  by (simp add: mode_in_def)

subsection \<open>The selection loop\<close>

lemma select_entries_video_only:
  "select_entries (JStr ''video'') vf s sel acc = Inr pl \<Longrightarrow>
   \<forall>e\<in>set acc. entry_type e \<noteq> Image \<Longrightarrow>
   \<forall>e\<in>set pl. entry_type e \<noteq> Image"
proof (induction sel arbitrary: acc)
  case Nil
  then show ?case by simp
next
  case (Cons entry sel)
  obtain nm repeats where entry: "entry = (nm, repeats)" by (cases entry)
  show ?case
  proof (cases "truthy nm")
    case False
    with Cons entry show ?thesis by simp
  next
    case True
    show ?thesis
    proof (cases nm)
      case (JStr n)
      have v: "\<forall>e\<in>set (acc @ replicate (nat repeats) (video_entry n None)).
                 entry_type e \<noteq> Image"
        using Cons.prems(2) by (auto simp: video_entry_def)
      from Cons.prems(1) entry True JStr
      have "select_entries (JStr ''video'') vf s sel acc = Inr pl \<or>
            select_entries (JStr ''video'') vf s sel
              (acc @ replicate (nat repeats) (video_entry n None)) = Inr pl"
        by (simp add: mode_in_simps split: if_splits option.splits)
      then show ?thesis
        using Cons.IH[OF _ Cons.prems(2)] Cons.IH[OF _ v] by blast
    qed (use Cons.prems(1) entry True in simp_all)
  qed
qed

lemma select_entries_presentation_only:
  "select_entries (JStr ''presentation'') vf s sel acc = Inr pl \<Longrightarrow>
   \<forall>e\<in>set acc. entry_type e \<noteq> Video \<Longrightarrow>
   \<forall>e\<in>set pl. entry_type e \<noteq> Video"
proof (induction sel arbitrary: acc)
  case Nil
  then show ?case by simp
next
  case (Cons entry sel)
  obtain nm repeats where entry: "entry = (nm, repeats)" by (cases entry)
  show ?case
  proof (cases "truthy nm")
    case False
    with Cons entry show ?thesis by simp
  next
    case True
    show ?thesis
    proof (cases nm)
      case (JStr n)
      have i: "\<forall>e\<in>set (acc @ concat (replicate (nat repeats) (pres_slides (path_stem n) ch))).
                 entry_type e \<noteq> Video" for ch
        using Cons.prems(2) by (auto simp: pres_slides_def image_entry_def)
      from Cons.prems(1) entry True JStr
      have "select_entries (JStr ''presentation'') vf s sel acc = Inr pl \<or>
            (\<exists>ch. select_entries (JStr ''presentation'') vf s sel
              (acc @ concat (replicate (nat repeats) (pres_slides (path_stem n) ch))) = Inr pl)"
        by (auto simp: mode_in_simps split: if_splits option.splits)
      then show ?thesis
        using Cons.IH[OF _ Cons.prems(2)] Cons.IH[OF _ i] by blast
    qed (use Cons.prems(1) entry True in simp_all)
  qed
qed

text \<open>
  Claim C8.  When the configured mode is \<open>video\<close>, no entry of a playlist that
  \<open>get_playlist\<close> returns is an image, whether the playlist comes from the selection or from
  the default enumeration, and the same holds for the playlist with durations; when the
  mode is \<open>presentation\<close>, no entry is a video.
\<close>

theorem mode_filtering:
  "(read_mode (config_file s) = JStr ''video'' \<longrightarrow>
      (\<forall>pl. get_playlist int_of_str s = Inr pl \<longrightarrow> (\<forall>e\<in>set pl. entry_type e \<noteq> Image)) \<and>
      (\<forall>e\<in>set (build_playlist_with_durations s). entry_type e \<noteq> Image)) \<and>
   (read_mode (config_file s) = JStr ''presentation'' \<longrightarrow>
      (\<forall>pl. get_playlist int_of_str s = Inr pl \<longrightarrow> (\<forall>e\<in>set pl. entry_type e \<noteq> Video)) \<and>
      (\<forall>e\<in>set (build_playlist_with_durations s). entry_type e \<noteq> Video))"
proof (intro conjI impI allI)
  fix pl
  assume m: "read_mode (config_file s) = JStr ''video''"
    and g: "get_playlist int_of_str s = Inr pl"
  show "\<forall>e\<in>set pl. entry_type e \<noteq> Image"
  proof (cases "read_selected int_of_str (playlist_json s) = []")
    case True
    with m g show ?thesis
      by (auto simp: get_playlist_def Let_def mode_in_simps video_entry_def)
  next
    case False
    with m g have "select_entries (JStr ''video'') (get_video_files s) s
                     (read_selected int_of_str (playlist_json s)) [] = Inr pl"
      by (simp add: get_playlist_def Let_def)
    from select_entries_video_only[OF this] show ?thesis by simp
  qed
next
  assume "read_mode (config_file s) = JStr ''video''"
  then show "\<forall>e\<in>set (build_playlist_with_durations s). entry_type e \<noteq> Image"
    by (auto simp: build_playlist_with_durations_def Let_def mode_in_simps video_entry_def)
next
  fix pl
  assume m: "read_mode (config_file s) = JStr ''presentation''"
    and g: "get_playlist int_of_str s = Inr pl"
  show "\<forall>e\<in>set pl. entry_type e \<noteq> Video"
  proof (cases "read_selected int_of_str (playlist_json s) = []")
    case True
    with m g show ?thesis
      by (auto simp: get_playlist_def Let_def mode_in_simps slide_entry_def image_entry_def)
  next
    case False
    with m g have "select_entries (JStr ''presentation'') (get_video_files s) s
                     (read_selected int_of_str (playlist_json s)) [] = Inr pl"
      by (simp add: get_playlist_def Let_def)
    from select_entries_presentation_only[OF this] show ?thesis by simp
  qed
next
  assume "read_mode (config_file s) = JStr ''presentation''"
  then show "\<forall>e\<in>set (build_playlist_with_durations s). entry_type e \<noteq> Video"
    by (auto simp: build_playlist_with_durations_def Let_def mode_in_simps slide_entry_def
          image_entry_def)
qed

lemma selection_store_video:
  "get_playlist int_of_digits (selection_store ''video'') =
     Inr [video_entry ''a.mp4'' None, video_entry ''a.mp4'' None]"
  by code_simp

lemma selection_store_presentation:
  "get_playlist int_of_digits (selection_store ''presentation'') =
     Inr [image_entry ''deck/slide_1.png'' ''slide_1.png'',
          image_entry ''deck/slide_2.png'' ''slide_2.png'']"
  by code_simp

theorem mode_filtering_witness:
  "get_playlist int_of_digits (selection_store ''video'') =
     Inr [video_entry ''a.mp4'' None, video_entry ''a.mp4'' None] \<and>
   entry_type (video_entry ''a.mp4'' None) \<noteq> Image \<and>
   get_playlist int_of_digits (selection_store ''presentation'') =
     Inr [image_entry ''deck/slide_1.png'' ''slide_1.png'',
          image_entry ''deck/slide_2.png'' ''slide_2.png''] \<and>
   entry_type (image_entry ''deck/slide_1.png'' ''slide_1.png'') \<noteq> Video \<and>
   entry_type (image_entry ''deck/slide_2.png'' ''slide_2.png'') \<noteq> Video"
proof -
  have mv: "read_mode (config_file (selection_store ''video'')) = JStr ''video''"
    by (simp add: selection_store_def read_mode_def dict_get_def)
  have mp: "read_mode (config_file (selection_store ''presentation'')) = JStr ''presentation''"
    by (simp add: selection_store_def read_mode_def dict_get_def)
  from mode_filtering[of "selection_store ''video''" int_of_digits] mv selection_store_video
  have v: "\<forall>e\<in>set [video_entry ''a.mp4'' None, video_entry ''a.mp4'' None].
             entry_type e \<noteq> Image"
    by blast
  from mode_filtering[of "selection_store ''presentation''" int_of_digits] mp
    selection_store_presentation
  have p: "\<forall>e\<in>set [image_entry ''deck/slide_1.png'' ''slide_1.png'',
                    image_entry ''deck/slide_2.png'' ''slide_2.png'']. entry_type e \<noteq> Video"
    by blast
  from v p selection_store_video selection_store_presentation show ?thesis by simp
qed








subsection \<open>The mode read from the configuration\<close>

lemma pres_dir_config: "pres_dir (s\<lparr>config_file := c\<rparr>) stem = pres_dir s stem"
  by (auto simp: pres_dir_def split: option.splits)

lemma select_entries_config:
  "select_entries mode vf (s\<lparr>config_file := c\<rparr>) sel acc = select_entries mode vf s sel acc"
proof (induction sel arbitrary: acc)
  case Nil
  then show ?case by simp
next
  case (Cons entry sel)
  obtain nm repeats where "entry = (nm, repeats)" by (cases entry)
  with Cons show ?case
    by (simp add: pres_dir_config split: json.splits option.splits)
qed

lemma select_entries_no_mode:
  "\<not> mode_in mode [''both'', ''video''] \<Longrightarrow> \<not> mode_in mode [''both'', ''presentation''] \<Longrightarrow>
   select_entries mode vf s sel acc = Inr acc \<or> select_entries mode vf s sel acc = Inl TypeError"
proof (induction sel arbitrary: acc)
  case Nil
  then show ?case by simp
next
  case (Cons entry sel)
  obtain nm repeats where "entry = (nm, repeats)" by (cases entry)
  with Cons show ?case
    by (simp split: json.splits option.splits)
qed

lemma mode_in_three:
  "\<not> mode_in mode [''both'', ''video'', ''presentation''] \<Longrightarrow>
   \<not> mode_in mode [''both'', ''video''] \<and> \<not> mode_in mode [''both'', ''presentation'']"
  by (cases mode) (simp_all add: mode_in_def)

lemma read_mode_fallback:
  "(\<forall>cfg. f \<noteq> Content (JDict cfg)) \<or>
   (\<exists>cfg. f = Content (JDict cfg) \<and> map_of cfg ''mode'' = None) \<Longrightarrow>
   read_mode f = JStr ''both''"
  by (auto simp: read_mode_def dict_get_def split: json_file.splits json.splits)

lemma get_playlist_by_mode:
  "read_mode c = read_mode (config_file s) \<Longrightarrow>
   get_playlist int_of_str (s\<lparr>config_file := c\<rparr>) = get_playlist int_of_str s"
  by (simp add: get_playlist_def Let_def select_entries_config get_video_files_def
        get_slide_files_def)

lemma build_by_mode:
  "read_mode c = read_mode (config_file s) \<Longrightarrow>
   build_playlist_with_durations (s\<lparr>config_file := c\<rparr>) = build_playlist_with_durations s"
  by (simp add: build_playlist_with_durations_def Let_def get_video_files_def
        get_slide_files_def)

text \<open>
  The fallbacks the code has.  A configuration file that is missing, cannot be read or
  parsed, is not a JSON object, or is an object without the key \<open>mode\<close>, gives the mode
  \<open>both\<close>: both builders return what they return under a configuration that says
  \<open>both\<close>.
\<close>

lemma config_fallback_to_both:
  assumes "(\<forall>cfg. config_file s \<noteq> Content (JDict cfg)) \<or>
           (\<exists>cfg. config_file s = Content (JDict cfg) \<and> map_of cfg ''mode'' = None)"
  shows "read_mode (config_file s) = JStr ''both''"
    and "get_playlist int_of_str s =
           get_playlist int_of_str
             (s\<lparr>config_file := Content (JDict [(''mode'', JStr ''both'')])\<rparr>)"
    and "build_playlist_with_durations s =
           build_playlist_with_durations
             (s\<lparr>config_file := Content (JDict [(''mode'', JStr ''both'')])\<rparr>)"
proof -
  show b: "read_mode (config_file s) = JStr ''both''"
    by (rule read_mode_fallback[OF assms])
  have m: "read_mode (Content (JDict [(''mode'', JStr ''both'')])) = read_mode (config_file s)"
    unfolding b by (simp add: read_mode_def dict_get_def)
  show "get_playlist int_of_str s =
          get_playlist int_of_str
            (s\<lparr>config_file := Content (JDict [(''mode'', JStr ''both'')])\<rparr>)"
    by (rule get_playlist_by_mode[OF m, symmetric])
  show "build_playlist_with_durations s =
          build_playlist_with_durations
            (s\<lparr>config_file := Content (JDict [(''mode'', JStr ''both'')])\<rparr>)"
    by (rule build_by_mode[OF m, symmetric])
qed

text \<open>
  The case the fallbacks leave out.  A value that is present under \<open>mode\<close> is used as it
  is, and one that is none of \<open>both\<close>, \<open>video\<close> and \<open>presentation\<close> fails both membership
  tests: the playlist with durations is empty, and \<open>get_playlist\<close> either returns the empty
  playlist or raises \<open>TypeError\<close> on a selected name that is not a string.  In no store
  does such a mode give the playlist of mode \<open>both\<close>, unless that playlist is empty too.
\<close>

lemma unrecognised_mode_emits_nothing:
  assumes "\<not> mode_in (read_mode (config_file s)) [''both'', ''video'', ''presentation'']"
  shows "build_playlist_with_durations s = []"
    and "get_playlist int_of_str s = Inr [] \<or> get_playlist int_of_str s = Inl TypeError"
proof -
  from mode_in_three[OF assms]
  have n: "\<not> mode_in (read_mode (config_file s)) [''both'', ''video'']"
          "\<not> mode_in (read_mode (config_file s)) [''both'', ''presentation'']"
    by simp_all
  show "build_playlist_with_durations s = []"
    using n by (simp add: build_playlist_with_durations_def Let_def)
  show "get_playlist int_of_str s = Inr [] \<or> get_playlist int_of_str s = Inl TypeError"
    using n select_entries_no_mode[OF n, of "get_video_files s" s
               "read_selected int_of_str (playlist_json s)" "[]"]
    by (simp add: get_playlist_def Let_def)
qed

lemma explicit_both_playlist:
  "get_playlist int_of_digits
     (example_store\<lparr>config_file := Content (JDict [(''mode'', JStr ''both'')])\<rparr>) =
     Inr [video_entry ''a.mp4'' None, video_entry ''b.mp4'' None,
          image_entry ''deck/slide_1.png'' ''slide_1.png'',
          image_entry ''deck/slide_2.png'' ''slide_2.png'']"
  by code_simp

lemma slides_mode_playlist:
  "get_playlist int_of_digits
     (example_store\<lparr>config_file := Content (JDict [(''mode'', JStr ''slides'')])\<rparr>) = Inr []"
  by code_simp

lemma null_mode_playlist:
  "get_playlist int_of_digits
     (example_store\<lparr>config_file := Content (JDict [(''mode'', JNull)])\<rparr>) = Inr []"
  by code_simp

lemma slides_mode_durations:
  "build_playlist_with_durations
     (example_store\<lparr>config_file := Content (JDict [(''mode'', JStr ''slides'')])\<rparr>) = []"
  by code_simp

text \<open>
  Claim C2 at a configuration whose mode is none of the three recognised values.  The
  example store holds two videos and a presentation with two slides.  With the mode
  \<open>slides\<close>, and likewise with the mode \<open>null\<close>, \<open>get_playlist\<close> returns the empty
  playlist, and with the mode \<open>slides\<close> the playlist with durations is empty as well; with
  the mode \<open>both\<close> the playlist has four entries.  So the unrecognised mode does not
  behave as \<open>both\<close>: it empties the playlist.
\<close>

theorem unrecognised_mode_empties_playlist:
  "get_playlist int_of_digits
     (example_store\<lparr>config_file := Content (JDict [(''mode'', JStr ''slides'')])\<rparr>) = Inr [] \<and>
   get_playlist int_of_digits
     (example_store\<lparr>config_file := Content (JDict [(''mode'', JNull)])\<rparr>) = Inr [] \<and>
   build_playlist_with_durations
     (example_store\<lparr>config_file := Content (JDict [(''mode'', JStr ''slides'')])\<rparr>) = [] \<and>
   get_playlist int_of_digits
     (example_store\<lparr>config_file := Content (JDict [(''mode'', JStr ''both'')])\<rparr>) =
     Inr [video_entry ''a.mp4'' None, video_entry ''b.mp4'' None,
          image_entry ''deck/slide_1.png'' ''slide_1.png'',
          image_entry ''deck/slide_2.png'' ''slide_2.png''] \<and>
   get_playlist int_of_digits
     (example_store\<lparr>config_file := Content (JDict [(''mode'', JStr ''slides'')])\<rparr>) \<noteq>
   get_playlist int_of_digits
     (example_store\<lparr>config_file := Content (JDict [(''mode'', JStr ''both'')])\<rparr>)"
  by (simp add: slides_mode_playlist null_mode_playlist slides_mode_durations
        explicit_both_playlist)

section \<open>The two snapshots\<close>

text \<open>
  Without a selection the two builders list the same content: they differ in the durations
  of the videos only.
\<close>

lemma snapshots_agree_without_selection:
  assumes "read_selected int_of_str (playlist_json s) = []"
  shows "\<exists>pl. get_playlist int_of_str s = Inr pl \<and>
              logical_content pl = logical_content (build_playlist_with_durations s)"
proof -
  let ?m = "read_mode (config_file s)"
  let ?vs = "filter (\<lambda>v. mode_in ?m [''both'', ''video'']) (get_video_files s)"
  let ?sl = "map slide_entry
               (filter (\<lambda>sl. mode_in ?m [''both'', ''presentation'']) (get_slide_files s))"
  have g: "get_playlist int_of_str s = Inr (map (\<lambda>v. video_entry v None) ?vs @ ?sl)"
    using assms by (simp add: get_playlist_def Let_def)
  have b: "build_playlist_with_durations s =
             map (\<lambda>v. video_entry v (Some (get_video_duration v))) ?vs @ ?sl"
    by (simp add: build_playlist_with_durations_def Let_def)
  have "logical_content (map (\<lambda>v. video_entry v None) ?vs @ ?sl) =
        logical_content (map (\<lambda>v. video_entry v (Some (get_video_duration v))) ?vs @ ?sl)"
    by (simp add: logical_content_def video_entry_def)
  with g b show ?thesis by simp
qed

lemma selection_store_both:
  "get_playlist int_of_digits (selection_store ''both'') =
     Inr [video_entry ''a.mp4'' None, video_entry ''a.mp4'' None,
          image_entry ''deck/slide_1.png'' ''slide_1.png'',
          image_entry ''deck/slide_2.png'' ''slide_2.png'']"
  by code_simp

lemma selection_store_both_durations:
  "build_playlist_with_durations (selection_store ''both'') =
     [video_entry ''a.mp4'' (Some 30), video_entry ''b.mp4'' (Some 30),
      image_entry ''deck/slide_1.png'' ''slide_1.png'',
      image_entry ''deck/slide_2.png'' ''slide_2.png'']"
  by code_simp

text \<open>
  Claim C1 at a store with a selection.  The selection file names \<open>a.mp4\<close> twice over and
  the presentation \<open>deck.pptx\<close>; the video directory also holds \<open>b.mp4\<close>.  The stateless
  snapshot follows the selection, the snapshot with durations lists the whole store, and
  the two differ in more than durations.
\<close>

theorem sync_snapshot_ignores_selection:
  "get_playlist int_of_digits (selection_store ''both'') =
     Inr [video_entry ''a.mp4'' None, video_entry ''a.mp4'' None,
          image_entry ''deck/slide_1.png'' ''slide_1.png'',
          image_entry ''deck/slide_2.png'' ''slide_2.png''] \<and>
   build_playlist_with_durations (selection_store ''both'') =
     [video_entry ''a.mp4'' (Some 30), video_entry ''b.mp4'' (Some 30),
      image_entry ''deck/slide_1.png'' ''slide_1.png'',
      image_entry ''deck/slide_2.png'' ''slide_2.png''] \<and>
   logical_content
     [video_entry ''a.mp4'' None, video_entry ''a.mp4'' None,
      image_entry ''deck/slide_1.png'' ''slide_1.png'',
      image_entry ''deck/slide_2.png'' ''slide_2.png''] \<noteq>
   logical_content (build_playlist_with_durations (selection_store ''both''))"
  by (simp add: selection_store_both selection_store_both_durations logical_content_def
        video_entry_def image_entry_def)

section \<open>The listing of videos\<close>

text \<open>
  What \<open>get_video_files\<close> does list: the names of the directory that end in one of the
  extensions written in lower case or in upper case throughout, in ascending order; and
  nothing when the directory is missing.
\<close>

lemma video_files_listed:
  "videos_dir s = Some names \<Longrightarrow> n \<in> set names \<Longrightarrow> ext \<in> set VIDEO_FORMATS \<Longrightarrow>
   glob_star ext n \<or> glob_star (upper ext) n \<Longrightarrow>
   n \<in> set (get_video_files s) \<and> sorted (get_video_files s)"
  by (auto simp: set_get_video_files sorted_get_video_files)

text \<open>
  Claim C3 at a directory with a mixed-case extension.  Of the three files \<open>clip.Mp4\<close>,
  \<open>intro.mp4\<close> and \<open>LOOP.MP4\<close>, only the last two are listed: \<open>.Mp4\<close> equals \<open>.mp4\<close> up to
  case but matches neither \<open>*.mp4\<close> nor \<open>*.MP4\<close>.
\<close>

theorem mixed_case_extension_not_listed:
  "get_video_files
     (empty_store\<lparr>videos_dir := Some [''clip.Mp4'', ''intro.mp4'', ''LOOP.MP4'']\<rparr>) =
     [''LOOP.MP4'', ''intro.mp4'']"
  by code_simp

end
